theory Spec2Isabelle
  imports Main "HOL-Library.Sublist" "HOL-Library.Word"
begin

section \<open>Data model of script.js\<close>

text \<open>
  A language bundle is the object delivered by \<^verbatim>\<open>response.json()\<close>: an object whose
  properties are mode names, each holding an object from translation key to display
  text. Objects are association lists of their own properties; \<open>map_of\<close> reads an own
  property and \<^verbatim>\<open>Object.keys(o).length\<close> is zero exactly when the list is empty.

  A display text is a JavaScript string: a list of UTF-16 code units. \<open>units\<close> gives
  the code units of a literal of the script. Keys, mode names, language codes, URLs and
  class names are lists of 8-bit characters.
\<close>

type_synonym code_unit = "16 word"

type_synonym js_text = "code_unit list"

definition units :: "string \<Rightarrow> js_text" where
  "units s = map of_char s"

type_synonym dict = "(string \<times> js_text) list"

type_synonym lang_bundle = "(string \<times> dict) list"

text \<open>\<^verbatim>\<open>let currentMode = 'summary'; // 'summary' or 'full'\<close>\<close>

datatype mode = Summary | Full

fun mode_name :: "mode \<Rightarrow> string" where
  "mode_name Summary = ''summary''"
| "mode_name Full = ''full''"

text \<open>
  The values a property read \<^verbatim>\<open>obj?.[key]\<close> can deliver on such a bundle: \<^verbatim>\<open>undefined\<close>,
  a stored text, or a member that the object inherits from \<^verbatim>\<open>Object.prototype\<close> (a
  built-in function, or the prototype object itself for \<^verbatim>\<open>__proto__\<close>).
\<close>

datatype jsval = JUndefined | JStr js_text | JBuiltin string

text \<open>
  The property names of \<^verbatim>\<open>Object.prototype\<close> in a browser. Objects made by
  \<^verbatim>\<open>JSON.parse\<close> inherit from it, so a read of one of these names on an object that
  has no own property of that name delivers the inherited member.
\<close>

definition object_prototype_names :: "string list" where
  "object_prototype_names =
     [''constructor'', ''__defineGetter__'', ''__defineSetter__'', ''hasOwnProperty'',
      ''__lookupGetter__'', ''__lookupSetter__'', ''isPrototypeOf'',
      ''propertyIsEnumerable'', ''toString'', ''valueOf'', ''__proto__'',
      ''toLocaleString'']"

text \<open>\<^verbatim>\<open>obj[key]\<close> on an object of texts: own property first, then the prototype.\<close>

definition get_member :: "dict \<Rightarrow> string \<Rightarrow> jsval" where
  "get_member obj key =
     (case map_of obj key of
        Some text \<Rightarrow> JStr text
      | None \<Rightarrow> if key \<in> set object_prototype_names then JBuiltin key else JUndefined)"

text \<open>\<^verbatim>\<open>obj?.[key]\<close>: \<^verbatim>\<open>undefined\<close> when the object itself is \<^verbatim>\<open>undefined\<close>.\<close>

definition opt_member :: "dict option \<Rightarrow> string \<Rightarrow> jsval" where
  "opt_member obj key = (case obj of None \<Rightarrow> JUndefined | Some d \<Rightarrow> get_member d key)"

text \<open>
  JavaScript truthiness: \<^verbatim>\<open>undefined\<close> and the empty string are falsy, every
  non-empty string, function and object is truthy.
\<close>

fun truthy :: "jsval \<Rightarrow> bool" where
  "truthy JUndefined = False"
| "truthy (JStr s) = (s \<noteq> [])"
| "truthy (JBuiltin n) = True"

text \<open>
  The page, as far as \<^verbatim>\<open>updateContent\<close> writes it. Each slot holds what was last
  assigned to it. \<open>translatable\<close> lists the \<^verbatim>\<open>[data-key]\<close> elements in document order,
  each with its key and its \<^verbatim>\<open>innerHTML\<close>; the class lists are the token sets of
  \<^verbatim>\<open>#full-mode-experience\<close> and \<^verbatim>\<open>#mode-toggle\<close>. The fixed elements are taken to
  exist, as the code takes them.
\<close>

record page_dom =
  translatable :: "(string \<times> js_text) list"
  htmlLang :: js_text
  langDisplay :: string
  toggleText :: js_text
  fullModeClasses :: "string list"
  toggleClasses :: "string list"
  navAbout :: js_text
  navExperience :: js_text
  navTechnologies :: js_text
  navEducation :: js_text

datatype diag = Info string | Error string

text \<open>
  The three globals of the script, with what its effects leave behind: the URLs
  fetched so far, the console and the page.
\<close>

record state =
  currentLang :: string
  currentMode :: mode
  currentTranslations :: lang_bundle
  fetchLog :: "string list"
  console :: "diag list"
  page :: page_dom

section \<open>Translation Resolver\<close>

text \<open>
  \<^verbatim>\<open>function t(key)\<close>. \<^verbatim>\<open>currentTranslations[currentMode]\<close> reads an own property:
  neither mode name is a property of \<^verbatim>\<open>Object.prototype\<close>.
\<close>

definition missing_key :: "string \<Rightarrow> js_text" where
  "missing_key key = units ''!!MISSING_KEY:'' @ units key @ units ''!!''"

definition t :: "state \<Rightarrow> string \<Rightarrow> jsval" where
  "t s key =
     (let activeModeContent = map_of (currentTranslations s) (mode_name (currentMode s));
          summaryContent = map_of (currentTranslations s) ''summary'';
          text = opt_member activeModeContent key;
          text = (if \<not> truthy text \<and> currentMode s = Full
                  then opt_member summaryContent key else text)
      in if truthy text then text else JStr (missing_key key))"

section \<open>Markup Normalizer\<close>

text \<open>
  \<^verbatim>\<open>text.replace(/\*\*(.*?)\*\*/g, '<strong>$1</strong>')\<close>. The pattern has neither the
  \<^verbatim>\<open>s\<close> nor the \<^verbatim>\<open>u\<close> flag: its dot matches one code unit, and matches none of the
  four line terminators, line feed, carriage return, U+2028 and U+2029.
\<close>

definition asterisk :: code_unit where
  "asterisk = 0x2A"

definition delimiter :: js_text where
  "delimiter = [asterisk, asterisk]"

definition line_terminator :: "code_unit \<Rightarrow> bool" where
  "line_terminator c = (c = 0x0A \<or> c = 0x0D \<or> c = 0x2028 \<or> c = 0x2029)"

text \<open>
  \<open>find_close\<close> runs \<^verbatim>\<open>(.*?)\*\*\<close> right after an opening delimiter: the lazy
  quantifier stops at the first closing delimiter, and gives up at a line terminator
  or at the end of the string. It returns the captured group and the rest of the string
  after the closing delimiter.
\<close>

fun find_close :: "js_text \<Rightarrow> (js_text \<times> js_text) option" where
  "find_close [] = None"
| "find_close (c # cs) =
     (if c = asterisk \<and> take 1 cs = [asterisk] then Some ([], drop 1 cs)
      else if line_terminator c then None
      else (case find_close cs of
              None \<Rightarrow> None
            | Some (x, rest) \<Rightarrow> Some (c # x, rest)))"

text \<open>
  The global replacement: matches are searched from left to right, a position with no
  match is copied and the search moves on by one code unit, and after a match the
  search resumes behind it.
\<close>

function replace_bold :: "js_text \<Rightarrow> js_text" where
  "replace_bold [] = []"
| "replace_bold (c # cs) =
     (if c = asterisk \<and> take 1 cs = [asterisk]
      then (case find_close (drop 1 cs) of
              Some (x, rest) \<Rightarrow>
                units ''<strong>'' @ x @ units ''</strong>'' @ replace_bold rest
            | None \<Rightarrow> c # replace_bold cs)
      else c # replace_bold cs)"
  by pat_completeness auto
termination
proof -
  have shorter: "length rest \<le> length ys" if "find_close ys = Some (x, rest)"
    for ys x rest
    using that
  proof (induction ys arbitrary: x rest)
    case Nil
    then show ?case by simp
  next
    case (Cons c cs)
    then show ?case
      by (fastforce split: if_splits option.splits)
  qed
  show ?thesis
    by (relation "measure length") (auto dest!: shorter)
qed

datatype js_error = TypeError

text \<open>
  \<^verbatim>\<open>function processMarkdown(text)\<close>. A falsy argument gives the empty string; a
  built-in member has no \<^verbatim>\<open>replace\<close> method, so the call throws.
\<close>

definition processMarkdown :: "jsval \<Rightarrow> js_error + js_text" where
  "processMarkdown text =
     (if \<not> truthy text then Inr []
      else (case text of
              JStr s \<Rightarrow> Inr (replace_bold s)
            | JBuiltin n \<Rightarrow> Inl TypeError
            | JUndefined \<Rightarrow> Inr []))"

section \<open>Bundle Loader\<close>

text \<open>
  What the browser contributes. \<open>fetch\<close> answers a request for a URL, given the URLs
  requested before it, with the parsed body, or with the reason why none arrived: the
  request was rejected, the response was not \<^verbatim>\<open>ok\<close>, or its body was not JSON.
  \<open>toUpperCase\<close> is \<^verbatim>\<open>String.prototype.toUpperCase\<close>, and \<open>nativeText\<close> is the string
  that a built-in member converts to.
\<close>

datatype failure = NetworkError | HttpNotOk | InvalidJson

record runtime =
  fetch :: "string list \<Rightarrow> string \<Rightarrow> failure + lang_bundle"
  toUpperCase :: "string \<Rightarrow> string"
  nativeText :: "string \<Rightarrow> js_text"

definition bundle_url :: "string \<Rightarrow> string" where
  "bundle_url lang = ''./i18n/'' @ lang @ ''.json''"

definition loaded_message :: "string \<Rightarrow> diag" where
  "loaded_message lang = Info (''Translations loaded for: '' @ lang)"

definition load_error_message :: "string \<Rightarrow> diag" where
  "load_error_message lang =
     Error (''Error loading translations for '' @ lang @ ''. Falling back to ''
            @ [CHR 0x27] @ ''en'' @ [CHR 0x27] @ ''.'')"

text \<open>
  \<^verbatim>\<open>async function loadLanguage(lang)\<close>, run to completion: no other event is
  interleaved at its \<^verbatim>\<open>await\<close>s. Every failure inside the \<^verbatim>\<open>try\<close> block reaches the
  \<^verbatim>\<open>catch\<close> block before any global is assigned.
\<close>

function loadLanguage :: "runtime \<Rightarrow> string \<Rightarrow> state \<Rightarrow> state" where
  "loadLanguage rt lang s =
     (if lang = currentLang s \<and> currentTranslations s \<noteq> [] then s
      else
        (let s1 = s\<lparr>fetchLog := fetchLog s @ [bundle_url lang]\<rparr>
         in case fetch rt (fetchLog s) (bundle_url lang) of
              Inr json \<Rightarrow>
                s1\<lparr>currentTranslations := json, currentLang := lang,
                   console := console s1 @ [loaded_message lang]\<rparr>
            | Inl err \<Rightarrow>
                (let s2 = s1\<lparr>console := console s1 @ [load_error_message lang]\<rparr>
                 in if lang \<noteq> ''en'' then loadLanguage rt ''en'' s2
                    else s2\<lparr>currentTranslations := []\<rparr>)))"
  by pat_completeness auto
termination
  by (relation "measure (\<lambda>(rt, lang, s). if lang = ''en'' then 0 else Suc 0)") auto

text \<open>
  The nesting of \<^verbatim>\<open>loadLanguage\<close> calls below the outermost one: one more for each
  recursive call that the run makes.
\<close>

function loadLanguage_depth :: "runtime \<Rightarrow> string \<Rightarrow> state \<Rightarrow> nat" where
  "loadLanguage_depth rt lang s =
     (if lang = currentLang s \<and> currentTranslations s \<noteq> [] then 0
      else
        (let s1 = s\<lparr>fetchLog := fetchLog s @ [bundle_url lang]\<rparr>
         in case fetch rt (fetchLog s) (bundle_url lang) of
              Inr json \<Rightarrow> 0
            | Inl err \<Rightarrow>
                (let s2 = s1\<lparr>console := console s1 @ [load_error_message lang]\<rparr>
                 in if lang \<noteq> ''en'' then Suc (loadLanguage_depth rt ''en'' s2)
                    else 0)))"
  by pat_completeness auto
termination
  by (relation "measure (\<lambda>(rt, lang, s). if lang = ''en'' then 0 else Suc 0)") auto

section \<open>Content Refresher\<close>

text \<open>\<^verbatim>\<open>classList.add\<close> and \<^verbatim>\<open>classList.remove\<close> on a token set.\<close>

definition class_add :: "string \<Rightarrow> string list \<Rightarrow> string list" where
  "class_add c cs = (if c \<in> set cs then cs else cs @ [c])"

definition class_remove :: "string \<Rightarrow> string list \<Rightarrow> string list" where
  "class_remove c cs = filter (\<lambda>x. x \<noteq> c) cs"

text \<open>
  The string stored by an assignment of a value to \<^verbatim>\<open>textContent\<close> or to
  \<^verbatim>\<open>lang\<close>.
\<close>

definition assigned_text :: "runtime \<Rightarrow> jsval \<Rightarrow> js_text" where
  "assigned_text rt v =
     (case v of JStr s \<Rightarrow> s | JBuiltin n \<Rightarrow> nativeText rt n | JUndefined \<Rightarrow> [])"

text \<open>
  The \<^verbatim>\<open>forEach\<close> over the \<^verbatim>\<open>[data-key]\<close> elements. When \<^verbatim>\<open>processMarkdown\<close>
  throws, the elements before the failing one keep their new content and the others
  their old one.
\<close>

fun render_elements ::
  "state \<Rightarrow> (string \<times> js_text) list
     \<Rightarrow> (js_error \<times> (string \<times> js_text) list) + (string \<times> js_text) list" where
  "render_elements s [] = Inr []"
| "render_elements s ((key, html) # els) =
     (let text = t s key
      in if truthy text
         then (case processMarkdown text of
                 Inl e \<Rightarrow> Inl (e, (key, html) # els)
               | Inr htmlContent \<Rightarrow>
                   (case render_elements s els of
                      Inl (e, els') \<Rightarrow> Inl (e, (key, htmlContent) # els')
                    | Inr els' \<Rightarrow> Inr ((key, htmlContent) # els')))
         else (case render_elements s els of
                 Inl (e, els') \<Rightarrow> Inl (e, (key, html) # els')
               | Inr els' \<Rightarrow> Inr ((key, html) # els')))"

text \<open>Step 3 of \<^verbatim>\<open>updateContent\<close>: the visibility classes of the current mode.\<close>

definition apply_visibility :: "mode \<Rightarrow> page_dom \<Rightarrow> page_dom" where
  "apply_visibility m p =
     (if m = Full
      then p\<lparr>fullModeClasses := class_remove ''hidden'' (fullModeClasses p),
             toggleClasses :=
               class_remove ''bg-dark-card'' (class_add ''bg-gray-700'' (toggleClasses p))\<rparr>
      else p\<lparr>fullModeClasses := class_add ''hidden'' (fullModeClasses p),
             toggleClasses :=
               class_remove ''bg-gray-700'' (class_add ''bg-dark-card'' (toggleClasses p))\<rparr>)"

text \<open>
  \<^verbatim>\<open>async function updateContent()\<close>, run to completion. \<open>Inr\<close> is a normal return,
  \<open>Inl\<close> an exception; both carry the state that the run leaves behind.
  \<^verbatim>\<open>baseContent['html-lang']\<close> throws when the bundle has no \<^verbatim>\<open>summary\<close>.
\<close>

definition updateContent :: "runtime \<Rightarrow> state \<Rightarrow> (js_error \<times> state) + state" where
  "updateContent rt s =
     (let s1 = (if currentTranslations s = [] then loadLanguage rt (currentLang s) s else s)
      in if currentTranslations s1 = []
         then Inr (s1\<lparr>console :=
                        console s1 @ [Error ''Critical error: No translations loaded.'']\<rparr>)
         else
           (let baseContent = map_of (currentTranslations s1) ''summary''
            in case render_elements s1 (translatable (page s1)) of
                 Inl (e, els) \<Rightarrow> Inl (e, s1\<lparr>page := (page s1)\<lparr>translatable := els\<rparr>\<rparr>)
               | Inr els \<Rightarrow>
                   (let p1 = (page s1)\<lparr>translatable := els\<rparr>
                    in case baseContent of
                         None \<Rightarrow> Inl (TypeError, s1\<lparr>page := p1\<rparr>)
                       | Some base \<Rightarrow>
                           (let htmlLangValue = get_member base ''html-lang'';
                                p2 = p1\<lparr>htmlLang :=
                                          (if truthy htmlLangValue
                                           then assigned_text rt htmlLangValue
                                           else units (currentLang s1))\<rparr>;
                                p3 = p2\<lparr>langDisplay := toUpperCase rt (currentLang s1)\<rparr>;
                                toggleTextValue = t s1 ''mode-toggle-text'';
                                p4 = p3\<lparr>toggleText := assigned_text rt toggleTextValue\<rparr>;
                                p5 = apply_visibility (currentMode s1) p4;
                                p6 = p5\<lparr>navAbout := assigned_text rt (t s1 ''nav-about''),
                                        navExperience :=
                                          assigned_text rt (t s1 ''nav-experience''),
                                        navTechnologies :=
                                          assigned_text rt (t s1 ''nav-technologies''),
                                        navEducation :=
                                          assigned_text rt (t s1 ''nav-education'')\<rparr>
                            in Inr (s1\<lparr>page := p6\<rparr>)))))"

text \<open>The state that a run leaves behind, however it ended.\<close>

definition state_after :: "(js_error \<times> state) + state \<Rightarrow> state" where
  "state_after r = (case r of Inl (e, s) \<Rightarrow> s | Inr s \<Rightarrow> s)"

definition completed :: "(js_error \<times> state) + state \<Rightarrow> bool" where
  "completed r = (case r of Inl x \<Rightarrow> False | Inr s \<Rightarrow> True)"

section \<open>Event listeners\<close>

text \<open>
  \<^verbatim>\<open>currentMode = currentMode === 'summary' ? 'full' : 'summary'; updateContent();\<close>
\<close>

definition toggle_mode :: "state \<Rightarrow> state" where
  "toggle_mode s = s\<lparr>currentMode := (if currentMode s = Summary then Full else Summary)\<rparr>"

definition modeToggleClick :: "runtime \<Rightarrow> state \<Rightarrow> (js_error \<times> state) + state" where
  "modeToggleClick rt s = updateContent rt (toggle_mode s)"

text \<open>\<^verbatim>\<open>await loadLanguage(newLang); updateContent();\<close>\<close>

definition languageClick ::
  "runtime \<Rightarrow> string \<Rightarrow> state \<Rightarrow> (js_error \<times> state) + state" where
  "languageClick rt newLang s = updateContent rt (loadLanguage rt newLang s)"

text \<open>
  \<^verbatim>\<open>navigator.language.split('-')[0] || 'en'\<close>, then the first
  \<^verbatim>\<open>await updateContent()\<close> of the page.
\<close>

definition initialLang :: "string \<Rightarrow> string" where
  "initialLang navigatorLanguage =
     (let first = takeWhile (\<lambda>c. c \<noteq> CHR ''-'') navigatorLanguage
      in if first = [] then ''en'' else first)"

definition domContentLoaded ::
  "runtime \<Rightarrow> string \<Rightarrow> state \<Rightarrow> (js_error \<times> state) + state" where
  "domContentLoaded rt navigatorLanguage s =
     updateContent rt (s\<lparr>currentLang := initialLang navigatorLanguage\<rparr>)"

text \<open>The globals as the script initialises them, on a given page.\<close>

definition initial_state :: "page_dom \<Rightarrow> state" where
  "initial_state p =
     \<lparr>currentLang = ''en'', currentMode = Summary, currentTranslations = [],
      fetchLog = [], console = [], page = p\<rparr>"

datatype event = DomContentLoaded string | LanguageClick string | ModeToggleClick

fun handle :: "runtime \<Rightarrow> event \<Rightarrow> state \<Rightarrow> (js_error \<times> state) + state" where
  "handle rt (DomContentLoaded navigatorLanguage) s = domContentLoaded rt navigatorLanguage s"
| "handle rt (LanguageClick newLang) s = languageClick rt newLang s"
| "handle rt ModeToggleClick s = modeToggleClick rt s"

section \<open>Fetches made during a run\<close>

text \<open>
  \<open>fetched_during rt s s' lang\<close>: the bundle of \<open>s'\<close> is the body that the browser
  delivered for a request of the file of \<open>lang\<close>, and that request was made after \<open>s\<close>.
\<close>

definition fetched_during :: "runtime \<Rightarrow> state \<Rightarrow> state \<Rightarrow> string \<Rightarrow> bool" where
  "fetched_during rt s s' lang =
     (\<exists>n\<in>{length (fetchLog s)..<length (fetchLog s')}.
        fetchLog s' ! n = bundle_url lang \<and>
        fetch rt (take n (fetchLog s')) (bundle_url lang) = Inr (currentTranslations s'))"

text \<open>
  What a run may do to the bundle: keep it (with the language it belongs to), empty it,
  or replace it by a body fetched during the run for the language that is then current.
\<close>

definition bundle_step :: "runtime \<Rightarrow> state \<Rightarrow> state \<Rightarrow> bool" where
  "bundle_step rt s s' =
     (currentTranslations s' = currentTranslations s \<and> currentLang s' = currentLang s \<or>
      currentTranslations s' = [] \<or>
      fetched_during rt s s' (currentLang s'))"

section \<open>Example sessions\<close>

text \<open>
  A page with one translatable element, in the classes of summary mode; a session on
  it; and a browser whose server answers from a table of files, with \<^verbatim>\<open>404\<close> for
  every other URL, and whose upper-casing knows the letters of \<open>en\<close> and \<open>es\<close>.
\<close>

definition example_page :: "string \<Rightarrow> page_dom" where
  "example_page key =
     \<lparr>translatable = [(key, units ''...'')], htmlLang = units ''en'', langDisplay = ''EN'',
      toggleText = units ''Full'', fullModeClasses = [''section'', ''hidden''],
      toggleClasses = [''btn'', ''bg-dark-card''], navAbout = units ''About'',
      navExperience = units ''Experience'', navTechnologies = units ''Technologies'',
      navEducation = units ''Education''\<rparr>"

definition session_with :: "string \<Rightarrow> mode \<Rightarrow> lang_bundle \<Rightarrow> page_dom \<Rightarrow> state" where
  "session_with lang m json p =
     \<lparr>currentLang = lang, currentMode = m, currentTranslations = json,
      fetchLog = [], console = [], page = p\<rparr>"

definition static_server :: "(string \<times> lang_bundle) list \<Rightarrow> runtime" where
  "static_server files =
     \<lparr>fetch = (\<lambda>requested url. case map_of files url of
                                      None \<Rightarrow> Inl HttpNotOk
                                    | Some json \<Rightarrow> Inr json),
      toUpperCase = map (\<lambda>c. if c = CHR ''e'' then CHR ''E''
                             else if c = CHR ''n'' then CHR ''N''
                             else if c = CHR ''s'' then CHR ''S'' else c),
      nativeText = (\<lambda>n. units (''function '' @ n @ ''() { [native code] }''))\<rparr>"

text \<open>The bundle \<^verbatim>\<open>{summary: {"a": "Hi"}, full: {}}\<close>, and a Spanish one.\<close>

definition hi_bundle :: lang_bundle where
  "hi_bundle = [(''summary'', [(''a'', units ''Hi'')]), (''full'', [])]"

definition hola_bundle :: lang_bundle where
  "hola_bundle =
     [(''summary'', [(''a'', units ''Hola''), (''html-lang'', units ''es'')]), (''full'', [])]"

text \<open>
  A visit that ends on a loaded session in summary mode, on a page whose one translatable
  element has the key \<open>toString\<close> and which still has the classes it was written
  with. The server fails the first request and then serves
  \<^verbatim>\<open>{summary: {}, full: {toString: "x"}}\<close>: the refresh at page load finds no bundle
  and returns, the listeners are registered, and a click on the language \<open>en\<close> loads
  the bundle.
\<close>

definition late_server :: "(string \<times> lang_bundle) list \<Rightarrow> runtime" where
  "late_server files =
     (static_server files)
       \<lparr>fetch := (\<lambda>requested url. if requested = [] then Inl NetworkError
                                  else fetch (static_server files) requested url)\<rparr>"

definition toString_bundle :: lang_bundle where
  "toString_bundle = [(''summary'', []), (''full'', [(''toString'', units ''x'')])]"

definition toString_visit :: state where
  "toString_visit =
     state_after (handle (late_server [(''./i18n/en.json'', toString_bundle)])
                    (LanguageClick ''en'')
       (state_after (handle (late_server [(''./i18n/en.json'', toString_bundle)])
                       (DomContentLoaded ''en-US'')
          (initial_state (example_page ''toString'')))))"

section \<open>Properties of the Translation Resolver\<close>

text \<open>
  Neither mode name is a member of \<^verbatim>\<open>Object.prototype\<close>, so the read of the mode's
  map in \<open>t\<close> is a read of an own property; and \<open>t\<close> always returns a truthy value, so
  the test \<^verbatim>\<open>if (text)\<close> in \<^verbatim>\<open>updateContent\<close> always succeeds.
\<close>

lemma mode_name_not_inherited: "mode_name m \<notin> set object_prototype_names"
  by (cases m) (simp_all add: object_prototype_names_def)

lemma t_truthy: "truthy (t s k)"
  by (simp add: t_def Let_def missing_key_def units_def)

text \<open>
  A key that neither map holds, and that is no member of \<^verbatim>\<open>Object.prototype\<close>, resolves
  to the marker, in both modes and also on an empty bundle.
\<close>

lemma t_missing_key:
  assumes "\<forall>content. map_of (currentTranslations s) ''summary'' = Some content
             \<longrightarrow> map_of content k = None"
    and "\<forall>content. map_of (currentTranslations s) ''full'' = Some content
             \<longrightarrow> map_of content k = None"
    and "k \<notin> set object_prototype_names"
  shows "t s k = JStr (missing_key k)"
  using assms
  by (cases "currentMode s")
     (auto simp add: t_def opt_member_def get_member_def split: option.splits)

text \<open>
  C1, as the code has it: a key that the map of the current mode holds with a non-empty
  text resolves to exactly that text. An empty text is falsy and is treated as missing.
\<close>

theorem t_present_key:
  assumes "map_of (currentTranslations s) (mode_name (currentMode s)) = Some content"
    and "map_of content k = Some text"
    and "text \<noteq> []"
  shows "t s k = JStr text"
  using assms by (simp add: t_def opt_member_def get_member_def)

theorem t_present_key_witness:
  "map_of (currentTranslations (session_with ''en'' Summary hi_bundle (example_page ''a'')))
     (mode_name (currentMode (session_with ''en'' Summary hi_bundle (example_page ''a''))))
     = Some [(''a'', units ''Hi'')] \<and>
   map_of [(''a'', units ''Hi'')] ''a'' = Some (units ''Hi'') \<and> units ''Hi'' \<noteq> [] \<and>
   t (session_with ''en'' Summary hi_bundle (example_page ''a'')) ''a'' = JStr (units ''Hi'')"
proof -
  have content:
    "map_of (currentTranslations (session_with ''en'' Summary hi_bundle (example_page ''a'')))
       (mode_name (currentMode (session_with ''en'' Summary hi_bundle (example_page ''a''))))
       = Some [(''a'', units ''Hi'')]"
    by (simp add: session_with_def hi_bundle_def)
  have stored: "map_of [(''a'', units ''Hi'')] ''a'' = Some (units ''Hi'')"
    by simp
  have nonempty: "units ''Hi'' \<noteq> []"
    by (simp add: units_def)
  from t_present_key [OF content stored nonempty] content stored nonempty
  show ?thesis by simp
qed

text \<open>
  The claim as it is written fails on an empty text: in summary mode the key \<open>a\<close>, stored
  with the text \<^verbatim>\<open>""\<close>, resolves to the marker.
\<close>

theorem t_present_key_counterexample:
  "map_of (currentTranslations
             (session_with ''en'' Summary [(''summary'', [(''a'', [])])] (example_page ''a'')))
     (mode_name (currentMode
             (session_with ''en'' Summary [(''summary'', [(''a'', [])])] (example_page ''a''))))
     = Some [(''a'', [])] \<and>
   map_of [(''a'', [])] ''a'' = Some [] \<and>
   t (session_with ''en'' Summary [(''summary'', [(''a'', [])])] (example_page ''a'')) ''a''
     = JStr (units ''!!MISSING_KEY:a!!'') \<and>
   t (session_with ''en'' Summary [(''summary'', [(''a'', [])])] (example_page ''a'')) ''a''
     \<noteq> JStr []"
  by (simp add: t_def session_with_def opt_member_def get_member_def missing_key_def
      units_def)

text \<open>
  C2, as the code has it: in full mode, a key that the full map does not hold and that
  the summary map holds with a non-empty text resolves to the summary text. The keys
  that name a member of \<^verbatim>\<open>Object.prototype\<close> are left out: the read on the full map
  finds the inherited member before the summary map is asked.
\<close>

theorem t_summary_fallback:
  assumes "currentMode s = Full"
    and "\<forall>content. map_of (currentTranslations s) ''full'' = Some content
             \<longrightarrow> map_of content k = None"
    and "k \<notin> set object_prototype_names"
    and "map_of (currentTranslations s) ''summary'' = Some summaryContent"
    and "map_of summaryContent k = Some text"
    and "text \<noteq> []"
  shows "t s k = JStr text"
  using assms
  by (auto simp add: t_def opt_member_def get_member_def split: option.splits)

theorem t_summary_fallback_witness:
  "currentMode (session_with ''en'' Full hi_bundle (example_page ''a'')) = Full \<and>
   map_of (currentTranslations (session_with ''en'' Full hi_bundle (example_page ''a'')))
     ''full'' = Some [] \<and>
   ''a'' \<notin> set object_prototype_names \<and>
   map_of (currentTranslations (session_with ''en'' Full hi_bundle (example_page ''a'')))
     ''summary'' = Some [(''a'', units ''Hi'')] \<and>
   map_of [(''a'', units ''Hi'')] ''a'' = Some (units ''Hi'') \<and>
   t (session_with ''en'' Full hi_bundle (example_page ''a'')) ''a'' = JStr (units ''Hi'')"
proof -
  let ?s = "session_with ''en'' Full hi_bundle (example_page ''a'')"
  have full_mode: "currentMode ?s = Full"
    by (simp add: session_with_def)
  have absent: "\<forall>content. map_of (currentTranslations ?s) ''full'' = Some content
                  \<longrightarrow> map_of content ''a'' = None"
    by (simp add: session_with_def hi_bundle_def)
  have ordinary: "''a'' \<notin> set object_prototype_names"
    by (simp add: object_prototype_names_def)
  have summary: "map_of (currentTranslations ?s) ''summary'' = Some [(''a'', units ''Hi'')]"
    by (simp add: session_with_def hi_bundle_def)
  have stored: "map_of [(''a'', units ''Hi'')] ''a'' = Some (units ''Hi'')"
    by simp
  have nonempty: "units ''Hi'' \<noteq> []"
    by (simp add: units_def)
  have full_map: "map_of (currentTranslations ?s) ''full'' = Some []"
    by (simp add: session_with_def hi_bundle_def)
  from t_summary_fallback [OF full_mode absent ordinary summary stored nonempty]
    full_mode full_map ordinary summary stored
  show ?thesis by blast
qed

text \<open>
  The claim as it is written fails twice in full mode. On \<^verbatim>\<open>{summary: {a: ""}, full: {}}\<close>
  the key \<open>a\<close> resolves to the marker, not to the empty summary text; and on
  \<^verbatim>\<open>{summary: {toString: "Hi"}, full: {}}\<close> the key \<open>toString\<close> resolves to the
  function that the full map inherits, not to the summary text.
\<close>

theorem t_summary_fallback_counterexample:
  "map_of [(''a'', [])] ''a'' = Some [] \<and>
   t (session_with ''en'' Full [(''summary'', [(''a'', [])]), (''full'', [])]
        (example_page ''a'')) ''a'' = JStr (units ''!!MISSING_KEY:a!!'') \<and>
   t (session_with ''en'' Full [(''summary'', [(''a'', [])]), (''full'', [])]
        (example_page ''a'')) ''a'' \<noteq> JStr [] \<and>
   map_of [(''toString'', units ''Hi'')] ''toString'' = Some (units ''Hi'') \<and>
   t (session_with ''en'' Full [(''summary'', [(''toString'', units ''Hi'')]), (''full'', [])]
        (example_page ''toString'')) ''toString'' = JBuiltin ''toString'' \<and>
   t (session_with ''en'' Full [(''summary'', [(''toString'', units ''Hi'')]), (''full'', [])]
        (example_page ''toString'')) ''toString'' \<noteq> JStr (units ''Hi'')"
  by (simp add: t_def session_with_def opt_member_def get_member_def missing_key_def
      object_prototype_names_def units_def)

text \<open>
  C3 at the key \<open>toString\<close> on the bundle \<^verbatim>\<open>{summary: {}, full: {}}\<close>: neither map
  holds the key, and \<open>t\<close> returns the function \<^verbatim>\<open>Object.prototype.toString\<close>, which is
  neither the marker nor a string.
\<close>

theorem t_inherited_member:
  "map_of (currentTranslations
             (session_with ''en'' Summary [(''summary'', []), (''full'', [])]
                (example_page ''toString''))) ''summary'' = Some [] \<and>
   map_of (currentTranslations
             (session_with ''en'' Summary [(''summary'', []), (''full'', [])]
                (example_page ''toString''))) ''full'' = Some [] \<and>
   t (session_with ''en'' Summary [(''summary'', []), (''full'', [])]
        (example_page ''toString'')) ''toString'' = JBuiltin ''toString'' \<and>
   t (session_with ''en'' Summary [(''summary'', []), (''full'', [])]
        (example_page ''toString'')) ''toString'' \<noteq> JStr (missing_key ''toString'')"
  by (simp add: t_def session_with_def opt_member_def get_member_def
      object_prototype_names_def)

section \<open>Properties of the Bundle Loader\<close>

declare loadLanguage.simps [simp del] loadLanguage_depth.simps [simp del]

text \<open>The four ways through one call.\<close>

lemma loadLanguage_noop:
  "lang = currentLang s \<Longrightarrow> currentTranslations s \<noteq> [] \<Longrightarrow> loadLanguage rt lang s = s"
  by (simp add: loadLanguage.simps)

lemma loadLanguage_success:
  "\<not> (lang = currentLang s \<and> currentTranslations s \<noteq> []) \<Longrightarrow>
   fetch rt (fetchLog s) (bundle_url lang) = Inr json \<Longrightarrow>
   loadLanguage rt lang s =
     s\<lparr>fetchLog := fetchLog s @ [bundle_url lang], currentTranslations := json,
       currentLang := lang, console := console s @ [loaded_message lang]\<rparr>"
  by (subst loadLanguage.simps) (auto simp add: Let_def)

lemma loadLanguage_failure_en:
  "\<not> (''en'' = currentLang s \<and> currentTranslations s \<noteq> []) \<Longrightarrow>
   fetch rt (fetchLog s) (bundle_url ''en'') = Inl err \<Longrightarrow>
   loadLanguage rt ''en'' s =
     s\<lparr>fetchLog := fetchLog s @ [bundle_url ''en''],
       console := console s @ [load_error_message ''en''], currentTranslations := []\<rparr>"
  by (subst loadLanguage.simps) (auto simp add: Let_def)

lemma loadLanguage_fallback:
  "lang \<noteq> ''en'' \<Longrightarrow> \<not> (lang = currentLang s \<and> currentTranslations s \<noteq> []) \<Longrightarrow>
   fetch rt (fetchLog s) (bundle_url lang) = Inl err \<Longrightarrow>
   loadLanguage rt lang s =
     loadLanguage rt ''en''
       (s\<lparr>fetchLog := fetchLog s @ [bundle_url lang],
          console := console s @ [load_error_message lang]\<rparr>)"
  by (subst loadLanguage.simps) (auto simp add: Let_def)

text \<open>The loader writes neither the page nor the mode.\<close>

lemma loadLanguage_page: "page (loadLanguage rt lang s) = page s"
  by (induction rt lang s rule: loadLanguage.induct)
     (subst loadLanguage.simps, auto simp add: Let_def split: sum.splits)

lemma loadLanguage_mode: "currentMode (loadLanguage rt lang s) = currentMode s"
  by (induction rt lang s rule: loadLanguage.induct)
     (subst loadLanguage.simps, auto simp add: Let_def split: sum.splits)

lemma loadLanguage_depth_le: "loadLanguage_depth rt lang s \<le> 1"
proof (cases "lang = ''en''")
  case True
  then show ?thesis
    by (subst loadLanguage_depth.simps) (simp add: Let_def split: sum.splits)
next
  case False
  have "loadLanguage_depth rt ''en'' s' = 0" for s'
    by (subst loadLanguage_depth.simps) (simp add: Let_def split: sum.splits)
  then show ?thesis
    by (subst loadLanguage_depth.simps) (simp add: Let_def split: sum.splits)
qed

text \<open>
  Every run of \<open>loadLanguage\<close> is one of six: nothing to do; the file arrives; the file
  of \<open>en\<close> fails; or the file of another language fails and the call for \<open>en\<close> that
  follows has nothing to do, succeeds, or fails.
\<close>

lemma loadLanguage_cases:
  obtains
    (noop) "lang = currentLang s" "currentTranslations s \<noteq> []" "loadLanguage rt lang s = s"
  | (loaded) json where "\<not> (lang = currentLang s \<and> currentTranslations s \<noteq> [])"
      "fetch rt (fetchLog s) (bundle_url lang) = Inr json"
      "loadLanguage rt lang s =
         s\<lparr>fetchLog := fetchLog s @ [bundle_url lang], currentTranslations := json,
           currentLang := lang, console := console s @ [loaded_message lang]\<rparr>"
  | (failed) err where "lang = ''en''" "\<not> (lang = currentLang s \<and> currentTranslations s \<noteq> [])"
      "fetch rt (fetchLog s) (bundle_url lang) = Inl err"
      "loadLanguage rt lang s =
         s\<lparr>fetchLog := fetchLog s @ [bundle_url ''en''],
           console := console s @ [load_error_message ''en''], currentTranslations := []\<rparr>"
  | (fallback_noop) err where "lang \<noteq> ''en''"
      "\<not> (lang = currentLang s \<and> currentTranslations s \<noteq> [])"
      "fetch rt (fetchLog s) (bundle_url lang) = Inl err"
      "currentLang s = ''en''" "currentTranslations s \<noteq> []"
      "loadLanguage rt lang s =
         s\<lparr>fetchLog := fetchLog s @ [bundle_url lang],
           console := console s @ [load_error_message lang]\<rparr>"
  | (fallback_loaded) err json where "lang \<noteq> ''en''"
      "\<not> (lang = currentLang s \<and> currentTranslations s \<noteq> [])"
      "fetch rt (fetchLog s) (bundle_url lang) = Inl err"
      "\<not> (currentLang s = ''en'' \<and> currentTranslations s \<noteq> [])"
      "fetch rt (fetchLog s @ [bundle_url lang]) (bundle_url ''en'') = Inr json"
      "loadLanguage rt lang s =
         s\<lparr>fetchLog := fetchLog s @ [bundle_url lang, bundle_url ''en''],
           currentTranslations := json, currentLang := ''en'',
           console := console s @ [load_error_message lang, loaded_message ''en'']\<rparr>"
  | (fallback_failed) err err' where "lang \<noteq> ''en''"
      "\<not> (lang = currentLang s \<and> currentTranslations s \<noteq> [])"
      "fetch rt (fetchLog s) (bundle_url lang) = Inl err"
      "\<not> (currentLang s = ''en'' \<and> currentTranslations s \<noteq> [])"
      "fetch rt (fetchLog s @ [bundle_url lang]) (bundle_url ''en'') = Inl err'"
      "loadLanguage rt lang s =
         s\<lparr>fetchLog := fetchLog s @ [bundle_url lang, bundle_url ''en''],
           console := console s @ [load_error_message lang, load_error_message ''en''],
           currentTranslations := []\<rparr>"
proof (cases "lang = currentLang s \<and> currentTranslations s \<noteq> []")
  case True
  then show ?thesis using noop by (simp add: loadLanguage_noop)
next
  case guard: False
  show ?thesis
  proof (cases "fetch rt (fetchLog s) (bundle_url lang)")
    case (Inr json)
    with guard show ?thesis using loaded by (simp add: loadLanguage_success)
  next
    case (Inl err)
    show ?thesis
    proof (cases "lang = ''en''")
      case True
      with guard Inl show ?thesis using failed [of err] by (simp add: loadLanguage_failure_en)
    next
      case other: False
      let ?s2 = "s\<lparr>fetchLog := fetchLog s @ [bundle_url lang],
                    console := console s @ [load_error_message lang]\<rparr>"
      from other guard Inl have hop: "loadLanguage rt lang s = loadLanguage rt ''en'' ?s2"
        by (rule loadLanguage_fallback)
      show ?thesis
      proof (cases "currentLang s = ''en'' \<and> currentTranslations s \<noteq> []")
        case True
        then have "loadLanguage rt ''en'' ?s2 = ?s2"
          by (simp add: loadLanguage_noop)
        with hop other guard Inl True show ?thesis using fallback_noop [of err] by simp
      next
        case en_guard: False
        show ?thesis
        proof (cases "fetch rt (fetchLog s @ [bundle_url lang]) (bundle_url ''en'')")
          case (Inr json)
          with en_guard have "loadLanguage rt ''en'' ?s2 =
              ?s2\<lparr>fetchLog := fetchLog ?s2 @ [bundle_url ''en''], currentTranslations := json,
                 currentLang := ''en'', console := console ?s2 @ [loaded_message ''en'']\<rparr>"
            by (intro loadLanguage_success) auto
          with hop other guard Inl en_guard Inr show ?thesis
            using fallback_loaded [of err json] by simp
        next
          case fail2: (Inl err')
          with en_guard have "loadLanguage rt ''en'' ?s2 =
              ?s2\<lparr>fetchLog := fetchLog ?s2 @ [bundle_url ''en''],
                 console := console ?s2 @ [load_error_message ''en''],
                 currentTranslations := []\<rparr>"
            by (intro loadLanguage_failure_en) auto
          with hop other guard Inl en_guard fail2 show ?thesis
            using fallback_failed [of err err'] by simp
        qed
      qed
    qed
  qed
qed

text \<open>
  C4, as the code has it: when the first of two calls for \<open>L\<close> leaves \<open>L\<close> as the
  current language with a non-empty bundle, the second call changes nothing, and the
  two calls together have fetched at most once.
\<close>

theorem loadLanguage_twice:
  assumes "currentLang (loadLanguage rt L s) = L"
    and "currentTranslations (loadLanguage rt L s) \<noteq> []"
  shows "loadLanguage rt L (loadLanguage rt L s) = loadLanguage rt L s \<and>
         length (fetchLog (loadLanguage rt L (loadLanguage rt L s)))
           \<le> Suc (length (fetchLog s))"
proof -
  have again: "loadLanguage rt L (loadLanguage rt L s) = loadLanguage rt L s"
    using assms by (simp add: loadLanguage_noop)
  have "length (fetchLog (loadLanguage rt L s)) \<le> Suc (length (fetchLog s))"
    using assms by (cases rt L s rule: loadLanguage_cases) auto
  with again show ?thesis by simp
qed

text \<open>A server that has the file of \<open>en\<close>, and one that has no file at all.\<close>

lemma en_loaded:
  "loadLanguage (static_server [(''./i18n/en.json'', hi_bundle)]) ''en''
     (initial_state (example_page ''a'')) =
   \<lparr>currentLang = ''en'', currentMode = Summary, currentTranslations = hi_bundle,
    fetchLog = [''./i18n/en.json''],
    console = [Info ''Translations loaded for: en''], page = example_page ''a''\<rparr>"
  by (subst loadLanguage.simps)
     (simp add: initial_state_def static_server_def bundle_url_def loaded_message_def)

theorem loadLanguage_twice_witness:
  "currentLang (loadLanguage (static_server [(''./i18n/en.json'', hi_bundle)]) ''en''
                  (initial_state (example_page ''a''))) = ''en'' \<and>
   currentTranslations (loadLanguage (static_server [(''./i18n/en.json'', hi_bundle)]) ''en''
                  (initial_state (example_page ''a''))) \<noteq> [] \<and>
   loadLanguage (static_server [(''./i18n/en.json'', hi_bundle)]) ''en''
     (loadLanguage (static_server [(''./i18n/en.json'', hi_bundle)]) ''en''
        (initial_state (example_page ''a''))) =
   loadLanguage (static_server [(''./i18n/en.json'', hi_bundle)]) ''en''
     (initial_state (example_page ''a'')) \<and>
   length (fetchLog
     (loadLanguage (static_server [(''./i18n/en.json'', hi_bundle)]) ''en''
        (loadLanguage (static_server [(''./i18n/en.json'', hi_bundle)]) ''en''
           (initial_state (example_page ''a'')))))
     \<le> Suc (length (fetchLog (initial_state (example_page ''a''))))"
proof -
  let ?rt = "static_server [(''./i18n/en.json'', hi_bundle)]"
  let ?s = "initial_state (example_page ''a'')"
  have current: "currentLang (loadLanguage ?rt ''en'' ?s) = ''en''"
    by (simp add: en_loaded)
  have loaded: "currentTranslations (loadLanguage ?rt ''en'' ?s) \<noteq> []"
    unfolding en_loaded by (simp add: hi_bundle_def)
  from loadLanguage_twice [OF current loaded] current loaded
  show ?thesis by blast
qed

lemma en_failed:
  "\<not> (''en'' = currentLang s \<and> currentTranslations s \<noteq> []) \<Longrightarrow>
   loadLanguage (static_server []) ''en'' s =
     s\<lparr>fetchLog := fetchLog s @ [''./i18n/en.json''],
       console := console s @ [load_error_message ''en''], currentTranslations := []\<rparr>"
  by (subst loadLanguage.simps)
     (auto simp add: static_server_def bundle_url_def)

text \<open>
  The claim as it is written fails when the first call does not load: with no file on the
  server, two calls for \<open>en\<close> in a row fetch the file of \<open>en\<close> twice.
\<close>

theorem loadLanguage_twice_counterexample:
  "fetchLog (loadLanguage (static_server []) ''en''
               (loadLanguage (static_server []) ''en'' (initial_state (example_page ''a''))))
     = [''./i18n/en.json'', ''./i18n/en.json''] \<and>
   \<not> length (fetchLog (loadLanguage (static_server []) ''en''
               (loadLanguage (static_server []) ''en'' (initial_state (example_page ''a'')))))
       \<le> Suc (length (fetchLog (initial_state (example_page ''a''))))"
  by (simp add: en_failed initial_state_def)

text \<open>
  C5: when the file of a language other than \<open>en\<close> is requested and does not arrive,
  whatever the failure, the run goes on as a call for \<open>en\<close>; and when the file of \<open>en\<close>
  is there, the session ends with \<open>en\<close> as its language and with the bundle of \<open>en\<close>:
  the one just fetched, or the one already loaded when \<open>en\<close> was current.
\<close>

theorem loadLanguage_falls_back_to_default:
  assumes "L \<noteq> ''en''"
    and "\<not> (L = currentLang s \<and> currentTranslations s \<noteq> [])"
    and "fetch rt (fetchLog s) (bundle_url L) = Inl err"
  shows "loadLanguage rt L s =
           loadLanguage rt ''en''
             (s\<lparr>fetchLog := fetchLog s @ [bundle_url L],
                console := console s @ [load_error_message L]\<rparr>) \<and>
         (\<forall>json. fetch rt (fetchLog s @ [bundle_url L]) (bundle_url ''en'') = Inr json \<longrightarrow>
            currentLang (loadLanguage rt L s) = ''en'' \<and>
            currentTranslations (loadLanguage rt L s) =
              (if currentLang s = ''en'' \<and> currentTranslations s \<noteq> []
               then currentTranslations s else json))"
proof -
  have "loadLanguage rt L s =
           loadLanguage rt ''en''
             (s\<lparr>fetchLog := fetchLog s @ [bundle_url L],
                console := console s @ [load_error_message L]\<rparr>)"
    using assms by (rule loadLanguage_fallback)
  moreover have "currentLang (loadLanguage rt L s) = ''en'' \<and>
            currentTranslations (loadLanguage rt L s) =
              (if currentLang s = ''en'' \<and> currentTranslations s \<noteq> []
               then currentTranslations s else json)"
    if "fetch rt (fetchLog s @ [bundle_url L]) (bundle_url ''en'') = Inr json" for json
    using assms that by (cases rt L s rule: loadLanguage_cases) auto
  ultimately show ?thesis by blast
qed

theorem loadLanguage_falls_back_to_default_witness:
  "''es'' \<noteq> ''en'' \<and>
   fetch (static_server [(''./i18n/en.json'', hi_bundle)])
     (fetchLog (initial_state (example_page ''a''))) (bundle_url ''es'') = Inl HttpNotOk \<and>
   currentLang (loadLanguage (static_server [(''./i18n/en.json'', hi_bundle)]) ''es''
                  (initial_state (example_page ''a''))) = ''en'' \<and>
   currentTranslations (loadLanguage (static_server [(''./i18n/en.json'', hi_bundle)]) ''es''
                  (initial_state (example_page ''a''))) = hi_bundle"
proof -
  let ?rt = "static_server [(''./i18n/en.json'', hi_bundle)]"
  let ?s = "initial_state (example_page ''a'')"
  have other: "''es'' \<noteq> ''en''"
    by simp
  have needed: "\<not> (''es'' = currentLang ?s \<and> currentTranslations ?s \<noteq> [])"
    by (simp add: initial_state_def)
  have fails: "fetch ?rt (fetchLog ?s) (bundle_url ''es'') = Inl HttpNotOk"
    by (simp add: static_server_def bundle_url_def)
  have default: "fetch ?rt (fetchLog ?s @ [bundle_url ''es'']) (bundle_url ''en'') = Inr hi_bundle"
    by (simp add: static_server_def bundle_url_def)
  have empty: "currentTranslations ?s = []"
    by (simp add: initial_state_def)
  from loadLanguage_falls_back_to_default [OF other needed fails] default
  have "currentLang (loadLanguage ?rt ''es'' ?s) = ''en'' \<and>
        currentTranslations (loadLanguage ?rt ''es'' ?s) =
          (if currentLang ?s = ''en'' \<and> currentTranslations ?s \<noteq> []
           then currentTranslations ?s else hi_bundle)"
    by blast
  with empty fails show ?thesis by simp
qed

text \<open>
  C6: a call nests at most one further call; it fetches nothing, or the requested file,
  or the requested file and then the file of \<open>en\<close>, and no file twice; and when the
  requested file fails and so does the file of \<open>en\<close>, the bundle is left empty. The
  function is total: every call returns.
\<close>

theorem loadLanguage_single_fallback:
  "loadLanguage_depth rt L s \<le> 1 \<and>
   (fetchLog (loadLanguage rt L s) = fetchLog s \<or>
    fetchLog (loadLanguage rt L s) = fetchLog s @ [bundle_url L] \<or>
    L \<noteq> ''en'' \<and>
      fetchLog (loadLanguage rt L s) = fetchLog s @ [bundle_url L, bundle_url ''en'']) \<and>
   (\<not> (L = currentLang s \<and> currentTranslations s \<noteq> []) \<and>
    (\<exists>err. fetch rt (fetchLog s) (bundle_url L) = Inl err) \<and>
    (L = ''en'' \<or>
     \<not> (currentLang s = ''en'' \<and> currentTranslations s \<noteq> []) \<and>
     (\<exists>err. fetch rt (fetchLog s @ [bundle_url L]) (bundle_url ''en'') = Inl err))
    \<longrightarrow> currentTranslations (loadLanguage rt L s) = [])"
proof -
  have "fetchLog (loadLanguage rt L s) = fetchLog s \<or>
    fetchLog (loadLanguage rt L s) = fetchLog s @ [bundle_url L] \<or>
    L \<noteq> ''en'' \<and>
      fetchLog (loadLanguage rt L s) = fetchLog s @ [bundle_url L, bundle_url ''en'']"
    by (cases rt L s rule: loadLanguage_cases) auto
  moreover have "currentTranslations (loadLanguage rt L s) = []"
    if "\<not> (L = currentLang s \<and> currentTranslations s \<noteq> [])"
      and "\<exists>err. fetch rt (fetchLog s) (bundle_url L) = Inl err"
      and "L = ''en'' \<or>
     \<not> (currentLang s = ''en'' \<and> currentTranslations s \<noteq> []) \<and>
     (\<exists>err. fetch rt (fetchLog s @ [bundle_url L]) (bundle_url ''en'') = Inl err)"
    using that by (cases rt L s rule: loadLanguage_cases) auto
  ultimately show ?thesis
    using loadLanguage_depth_le [of rt L s] by blast
qed

theorem loadLanguage_single_fallback_witness:
  "fetch (static_server []) (fetchLog (initial_state (example_page ''a'')))
     (bundle_url ''es'') = Inl HttpNotOk \<and>
   fetch (static_server []) (fetchLog (initial_state (example_page ''a'')) @ [bundle_url ''es''])
     (bundle_url ''en'') = Inl HttpNotOk \<and>
   loadLanguage_depth (static_server []) ''es'' (initial_state (example_page ''a'')) \<le> 1 \<and>
   currentTranslations (loadLanguage (static_server []) ''es''
                          (initial_state (example_page ''a''))) = [] \<and>
   length (fetchLog (loadLanguage (static_server []) ''es''
                          (initial_state (example_page ''a'')))) \<le> 2"
proof -
  let ?rt = "static_server []"
  let ?s = "initial_state (example_page ''a'')"
  have needed: "\<not> (''es'' = currentLang ?s \<and> currentTranslations ?s \<noteq> [])"
    "\<not> (currentLang ?s = ''en'' \<and> currentTranslations ?s \<noteq> [])"
    by (simp_all add: initial_state_def)
  have fails: "fetch ?rt (fetchLog ?s) (bundle_url ''es'') = Inl HttpNotOk"
    "fetch ?rt (fetchLog ?s @ [bundle_url ''es'']) (bundle_url ''en'') = Inl HttpNotOk"
    by (simp_all add: static_server_def)
  have "fetchLog ?s = []"
    by (simp add: initial_state_def)
  with loadLanguage_single_fallback [of ?rt "''es''" ?s] needed fails
  show ?thesis by auto
qed

section \<open>Properties of the Content Refresher\<close>

text \<open>The class lists as sets, after step 3.\<close>

lemma set_class_add: "set (class_add c cs) = insert c (set cs)"
  by (auto simp add: class_add_def)

lemma set_class_remove: "set (class_remove c cs) = set cs - {c}"
  by (auto simp add: class_remove_def)

lemma apply_visibility_full_classes:
  "set (fullModeClasses (apply_visibility m p)) =
     (if m = Full then set (fullModeClasses p) - {''hidden''}
      else insert ''hidden'' (set (fullModeClasses p)))"
  by (simp add: apply_visibility_def set_class_add set_class_remove)

lemma apply_visibility_toggle_classes:
  "set (toggleClasses (apply_visibility m p)) =
     (if m = Full then insert ''bg-gray-700'' (set (toggleClasses p)) - {''bg-dark-card''}
      else insert ''bg-dark-card'' (set (toggleClasses p)) - {''bg-gray-700''})"
  by (simp add: apply_visibility_def set_class_add set_class_remove)

text \<open>
  A refresh on a loaded session fetches nothing and leaves the globals alone; it writes
  the classes of the current mode exactly when it runs to its end.
\<close>

lemma updateContent_loaded:
  assumes "currentTranslations s \<noteq> []"
  shows "currentMode (state_after (updateContent rt s)) = currentMode s \<and>
         currentTranslations (state_after (updateContent rt s)) = currentTranslations s \<and>
         currentLang (state_after (updateContent rt s)) = currentLang s \<and>
         fetchLog (state_after (updateContent rt s)) = fetchLog s \<and>
         (if completed (updateContent rt s)
          then fullModeClasses (page (state_after (updateContent rt s))) =
                 fullModeClasses (apply_visibility (currentMode s) (page s)) \<and>
               toggleClasses (page (state_after (updateContent rt s))) =
                 toggleClasses (apply_visibility (currentMode s) (page s))
          else fullModeClasses (page (state_after (updateContent rt s))) =
                 fullModeClasses (page s) \<and>
               toggleClasses (page (state_after (updateContent rt s))) =
                 toggleClasses (page s))"
  using assms
  by (simp add: updateContent_def state_after_def completed_def Let_def apply_visibility_def
      split: sum.splits option.splits prod.splits)

lemma updateContent_not_loaded:
  assumes "currentTranslations s = []"
    and "currentTranslations (loadLanguage rt (currentLang s) s) = []"
  shows "updateContent rt s =
           Inr ((loadLanguage rt (currentLang s) s)
                  \<lparr>console := console (loadLanguage rt (currentLang s) s) @
                     [Error ''Critical error: No translations loaded.'']\<rparr>)"
  using assms by (simp add: updateContent_def Let_def)

text \<open>
  C10: when the bundle is empty on entry and still empty after the load, the run returns
  normally and the page is what it was, slot by slot.
\<close>

theorem updateContent_load_failed:
  assumes "currentTranslations s = []"
    and "currentTranslations (loadLanguage rt (currentLang s) s) = []"
  shows "completed (updateContent rt s) \<and> page (state_after (updateContent rt s)) = page s"
  using assms
  by (simp add: updateContent_not_loaded completed_def state_after_def loadLanguage_page)

theorem updateContent_load_failed_witness:
  "currentTranslations (initial_state (example_page ''a'')) = [] \<and>
   currentTranslations
     (loadLanguage (static_server []) (currentLang (initial_state (example_page ''a'')))
        (initial_state (example_page ''a''))) = [] \<and>
   completed (updateContent (static_server []) (initial_state (example_page ''a''))) \<and>
   page (state_after (updateContent (static_server []) (initial_state (example_page ''a''))))
     = example_page ''a''"
proof -
  let ?s = "initial_state (example_page ''a'')"
  have empty: "currentTranslations ?s = []"
    by (simp add: initial_state_def)
  have "currentLang ?s = ''en''"
    by (simp add: initial_state_def)
  then have still_empty: "currentTranslations (loadLanguage (static_server []) (currentLang ?s) ?s) = []"
    using empty by (simp add: en_failed)
  have "page ?s = example_page ''a''"
    by (simp add: initial_state_def)
  with updateContent_load_failed [OF empty still_empty] empty still_empty
  show ?thesis by simp
qed

section \<open>Properties of the mode toggle\<close>

text \<open>The toggle writes the mode and nothing else.\<close>

lemma toggle_mode_fields:
  "currentTranslations (toggle_mode s) = currentTranslations s"
  "page (toggle_mode s) = page s"
  "currentMode (toggle_mode s) = (if currentMode s = Summary then Full else Summary)"
  by (simp_all add: toggle_mode_def)

text \<open>
  What two toggles do when the refresh after the second one runs to its end: on a loaded
  session whose page shows the classes of its mode, the mode and the classes of the
  container and of the button are back. The class lists are compared as sets:
  \<^verbatim>\<open>classList.add\<close> appends, so the order of the tokens may change.
\<close>

lemma mode_toggle_twice_completed:
  assumes loaded: "currentTranslations s \<noteq> []"
    and hidden: "(''hidden'' \<in> set (fullModeClasses (page s))) = (currentMode s = Summary)"
    and dark: "(''bg-dark-card'' \<in> set (toggleClasses (page s))) = (currentMode s = Summary)"
    and gray: "(''bg-gray-700'' \<in> set (toggleClasses (page s))) = (currentMode s = Full)"
    and second: "completed (modeToggleClick rt (state_after (modeToggleClick rt s)))"
  shows "currentMode (state_after (modeToggleClick rt (state_after (modeToggleClick rt s))))
           = currentMode s \<and>
         set (fullModeClasses
                (page (state_after (modeToggleClick rt (state_after (modeToggleClick rt s))))))
           = set (fullModeClasses (page s)) \<and>
         set (toggleClasses
                (page (state_after (modeToggleClick rt (state_after (modeToggleClick rt s))))))
           = set (toggleClasses (page s))"
proof -
  define s1 where "s1 = state_after (modeToggleClick rt s)"
  define s2 where "s2 = state_after (modeToggleClick rt s1)"
  have first: "currentMode s1 = (if currentMode s = Summary then Full else Summary)"
    "currentTranslations s1 = currentTranslations s"
    "(set (fullModeClasses (page s1)) = set (fullModeClasses (page s)) \<and>
      set (toggleClasses (page s1)) = set (toggleClasses (page s))) \<or>
     (set (fullModeClasses (page s1)) =
        set (fullModeClasses (apply_visibility (currentMode s1) (page s))) \<and>
      set (toggleClasses (page s1)) =
        set (toggleClasses (apply_visibility (currentMode s1) (page s))))"
    using updateContent_loaded [of "toggle_mode s" rt] loaded
    by (simp_all add: s1_def modeToggleClick_def toggle_mode_fields split: if_splits)
  have restored: "currentMode s2 = currentMode s"
    "set (fullModeClasses (page s2)) =
       set (fullModeClasses (apply_visibility (currentMode s) (page s1)))"
    "set (toggleClasses (page s2)) =
       set (toggleClasses (apply_visibility (currentMode s) (page s1)))"
    using updateContent_loaded [of "toggle_mode s1" rt] loaded first(1,2) second
    by (auto simp add: s2_def s1_def modeToggleClick_def toggle_mode_fields split: if_splits
        intro: mode.exhaust)
  have "set (fullModeClasses (page s2)) = set (fullModeClasses (page s))"
    using first restored hidden
    by (cases "currentMode s") (auto simp add: apply_visibility_full_classes)
  moreover have "set (toggleClasses (page s2)) = set (toggleClasses (page s))"
    using first restored dark gray
    by (cases "currentMode s") (auto simp add: apply_visibility_toggle_classes)
  ultimately show ?thesis
    using restored(1) by (simp add: s2_def s1_def)
qed

text \<open>
  C7 on the visit \<open>toString_visit\<close>. The page load completes, so the listeners are
  registered; the session is loaded, in summary mode, the container hidden and the
  button dark. The first toggle completes in full mode. The refresh after the second
  toggle throws in \<^verbatim>\<open>processMarkdown\<close>, because \<open>t\<close> returns the function
  \<^verbatim>\<open>Object.prototype.toString\<close> for the key of the element, before it reaches the
  classes: the mode is summary again, and the container stays visible and the button
  grey.
\<close>

theorem mode_toggle_twice_throws:
  "completed (handle (late_server [(''./i18n/en.json'', toString_bundle)])
                (DomContentLoaded ''en-US'') (initial_state (example_page ''toString''))) \<and>
   currentTranslations toString_visit = toString_bundle \<and>
   currentMode toString_visit = Summary \<and>
   ''hidden'' \<in> set (fullModeClasses (page toString_visit)) \<and>
   ''bg-dark-card'' \<in> set (toggleClasses (page toString_visit)) \<and>
   ''bg-gray-700'' \<notin> set (toggleClasses (page toString_visit)) \<and>
   t toString_visit ''toString'' = JBuiltin ''toString'' \<and>
   completed (modeToggleClick (late_server [(''./i18n/en.json'', toString_bundle)])
                toString_visit) \<and>
   \<not> completed (modeToggleClick (late_server [(''./i18n/en.json'', toString_bundle)])
     (state_after (modeToggleClick (late_server [(''./i18n/en.json'', toString_bundle)])
        toString_visit))) \<and>
   currentMode (state_after (modeToggleClick
     (late_server [(''./i18n/en.json'', toString_bundle)])
     (state_after (modeToggleClick (late_server [(''./i18n/en.json'', toString_bundle)])
        toString_visit)))) = Summary \<and>
   ''hidden'' \<notin> set (fullModeClasses (page (state_after (modeToggleClick
     (late_server [(''./i18n/en.json'', toString_bundle)])
     (state_after (modeToggleClick (late_server [(''./i18n/en.json'', toString_bundle)])
        toString_visit)))))) \<and>
   ''bg-dark-card'' \<notin> set (toggleClasses (page (state_after (modeToggleClick
     (late_server [(''./i18n/en.json'', toString_bundle)])
     (state_after (modeToggleClick (late_server [(''./i18n/en.json'', toString_bundle)])
        toString_visit)))))) \<and>
   ''bg-gray-700'' \<in> set (toggleClasses (page (state_after (modeToggleClick
     (late_server [(''./i18n/en.json'', toString_bundle)])
     (state_after (modeToggleClick (late_server [(''./i18n/en.json'', toString_bundle)])
        toString_visit))))))"
  by code_simp

section \<open>One bundle, replaced wholesale\<close>

text \<open>The log of fetches only grows.\<close>

lemma loadLanguage_log: "\<exists>ext. fetchLog (loadLanguage rt lang s) = fetchLog s @ ext"
  by (cases rt lang s rule: loadLanguage_cases) auto

lemma fetched_duringI:
  "fetchLog s' = fetchLog s @ before @ bundle_url lang # after \<Longrightarrow>
   fetch rt (fetchLog s @ before) (bundle_url lang) = Inr (currentTranslations s') \<Longrightarrow>
   fetched_during rt s s' lang"
  unfolding fetched_during_def
  by (rule bexI [of _ "length (fetchLog s @ before)"])
     (simp_all add: nth_append)

lemma loadLanguage_fetched:
  "currentTranslations (loadLanguage rt L s) = currentTranslations s \<and>
     currentLang (loadLanguage rt L s) = currentLang s \<or>
   currentTranslations (loadLanguage rt L s) = [] \<or>
   (\<exists>lang\<in>{L, ''en''}. currentLang (loadLanguage rt L s) = lang \<and>
      fetched_during rt s (loadLanguage rt L s) lang)"
proof (cases rt L s rule: loadLanguage_cases)
  case (loaded json)
  then have "fetched_during rt s (loadLanguage rt L s) L"
    by (intro fetched_duringI [where before = "[]" and after = "[]"]) simp_all
  with loaded show ?thesis by simp
next
  case (fallback_loaded err json)
  then have "fetched_during rt s (loadLanguage rt L s) ''en''"
    by (intro fetched_duringI [where before = "[bundle_url L]" and after = "[]"]) simp_all
  with fallback_loaded show ?thesis by simp
qed simp_all

lemma loadLanguage_bundle_step: "bundle_step rt s (loadLanguage rt L s)"
  using loadLanguage_fetched [of rt L s] by (auto simp add: bundle_step_def)

lemma fetched_during_extend:
  assumes "fetched_during rt s s1 lang"
    and "fetchLog s2 = fetchLog s1 @ ext"
    and "currentTranslations s2 = currentTranslations s1"
  shows "fetched_during rt s s2 lang"
  using assms unfolding fetched_during_def
  by (auto simp add: nth_append)

lemma fetched_during_later:
  assumes "fetched_during rt s1 s2 lang"
    and "fetchLog s1 = fetchLog s @ ext"
  shows "fetched_during rt s s2 lang"
  using assms unfolding fetched_during_def by auto

lemma bundle_step_trans:
  assumes "bundle_step rt s s1" and "bundle_step rt s1 s2"
    and "fetchLog s1 = fetchLog s @ ext1" and "fetchLog s2 = fetchLog s1 @ ext2"
  shows "bundle_step rt s s2"
  using assms fetched_during_extend [of rt s s1 "currentLang s1" s2 ext2]
    fetched_during_later [of rt s1 s2 "currentLang s2" s ext1]
  unfolding bundle_step_def by auto

lemma updateContent_session:
  "currentTranslations (state_after (updateContent rt s)) =
     currentTranslations (if currentTranslations s = [] then loadLanguage rt (currentLang s) s else s) \<and>
   currentLang (state_after (updateContent rt s)) =
     currentLang (if currentTranslations s = [] then loadLanguage rt (currentLang s) s else s) \<and>
   fetchLog (state_after (updateContent rt s)) =
     fetchLog (if currentTranslations s = [] then loadLanguage rt (currentLang s) s else s)"
  by (simp add: updateContent_def state_after_def Let_def
      split: sum.splits option.splits prod.splits)

lemma bundle_step_cong:
  "currentTranslations s' = currentTranslations s1 \<Longrightarrow> currentLang s' = currentLang s1 \<Longrightarrow>
   fetchLog s' = fetchLog s1 \<Longrightarrow> bundle_step rt s s1 \<Longrightarrow> bundle_step rt s s'"
  by (simp add: bundle_step_def fetched_during_def)

lemma bundle_step_refl: "bundle_step rt s s"
  by (simp add: bundle_step_def)

lemma updateContent_bundle_step: "bundle_step rt s (state_after (updateContent rt s))"
proof (cases "currentTranslations s = []")
  case True
  with updateContent_session [of rt s] show ?thesis
    by (intro bundle_step_cong [OF _ _ _ loadLanguage_bundle_step [of rt s "currentLang s"]])
       simp_all
next
  case False
  with updateContent_session [of rt s] show ?thesis
    by (intro bundle_step_cong [OF _ _ _ bundle_step_refl [of rt s]]) simp_all
qed

lemma updateContent_log:
  "\<exists>ext. fetchLog (state_after (updateContent rt s)) = fetchLog s @ ext"
proof (cases "currentTranslations s = []")
  case True
  then have "fetchLog (state_after (updateContent rt s)) =
               fetchLog (loadLanguage rt (currentLang s) s)"
    using updateContent_session [of rt s] by simp
  with loadLanguage_log [of rt "currentLang s" s] show ?thesis
    by metis
next
  case False
  then have "fetchLog (state_after (updateContent rt s)) = fetchLog s"
    using updateContent_session [of rt s] by simp
  then show ?thesis by simp
qed

lemma handle_bundle_step:
  "currentTranslations (state_after (handle rt ev s)) = currentTranslations s \<or>
   currentTranslations (state_after (handle rt ev s)) = [] \<or>
   fetched_during rt s (state_after (handle rt ev s)) (currentLang (state_after (handle rt ev s)))"
proof (cases ev)
  case (DomContentLoaded nav)
  let ?s0 = "s\<lparr>currentLang := initialLang nav\<rparr>"
  have "bundle_step rt ?s0 (state_after (updateContent rt ?s0))"
    by (rule updateContent_bundle_step)
  with DomContentLoaded show ?thesis
    by (auto simp add: bundle_step_def domContentLoaded_def fetched_during_def)
next
  case (LanguageClick newLang)
  let ?s1 = "loadLanguage rt newLang s"
  obtain ext1 where "fetchLog ?s1 = fetchLog s @ ext1"
    using loadLanguage_log [of rt newLang s] by blast
  moreover obtain ext2 where "fetchLog (state_after (updateContent rt ?s1)) = fetchLog ?s1 @ ext2"
    using updateContent_log [of rt ?s1] by blast
  ultimately have "bundle_step rt s (state_after (updateContent rt ?s1))"
    by (rule bundle_step_trans
          [OF loadLanguage_bundle_step [of rt s newLang] updateContent_bundle_step [of rt ?s1]])
  with LanguageClick show ?thesis
    by (auto simp add: bundle_step_def languageClick_def)
next
  case ModeToggleClick
  have "bundle_step rt (toggle_mode s) (state_after (updateContent rt (toggle_mode s)))"
    by (rule updateContent_bundle_step)
  with ModeToggleClick show ?thesis
    by (auto simp add: bundle_step_def modeToggleClick_def fetched_during_def toggle_mode_def)
qed

lemma loadLanguage_refetch:
  "L \<noteq> currentLang s \<Longrightarrow>
   take (Suc (length (fetchLog s))) (fetchLog (loadLanguage rt L s)) = fetchLog s @ [bundle_url L]"
  by (cases rt L s rule: loadLanguage_cases) auto

text \<open>
  C8: the session has one bundle, the single global \<^verbatim>\<open>currentTranslations\<close>. A call of
  the loader keeps it, empties it, or puts in its place exactly the body fetched during
  the call for the language it then names as current: the requested one, or \<open>en\<close> after
  the fallback request. Every event of the page does the same. Nothing is kept of a
  language that is no longer current: a call for another language than the current one
  always fetches its file.
\<close>

theorem single_bundle_replaced_wholesale:
  "(currentTranslations (loadLanguage rt L s) = currentTranslations s \<and>
      currentLang (loadLanguage rt L s) = currentLang s \<or>
    currentTranslations (loadLanguage rt L s) = [] \<or>
    (\<exists>lang\<in>{L, ''en''}. currentLang (loadLanguage rt L s) = lang \<and>
       fetched_during rt s (loadLanguage rt L s) lang)) \<and>
   (currentTranslations (state_after (handle rt ev s)) = currentTranslations s \<or>
    currentTranslations (state_after (handle rt ev s)) = [] \<or>
    fetched_during rt s (state_after (handle rt ev s))
      (currentLang (state_after (handle rt ev s)))) \<and>
   (L \<noteq> currentLang s \<longrightarrow>
      take (Suc (length (fetchLog s))) (fetchLog (loadLanguage rt L s)) =
        fetchLog s @ [bundle_url L])"
  using loadLanguage_fetched [of rt L s] handle_bundle_step [of rt ev s]
    loadLanguage_refetch [of L s rt]
  by blast

theorem single_bundle_replaced_wholesale_witness:
  "''es'' \<noteq> currentLang (session_with ''en'' Summary hi_bundle (example_page ''a'')) \<and>
   take (Suc (length (fetchLog (session_with ''en'' Summary hi_bundle (example_page ''a''))))) 
     (fetchLog (loadLanguage
        (static_server [(''./i18n/es.json'', hola_bundle), (''./i18n/en.json'', hi_bundle)])
        ''es'' (session_with ''en'' Summary hi_bundle (example_page ''a''))))
     = fetchLog (session_with ''en'' Summary hi_bundle (example_page ''a'')) @
         [bundle_url ''es''] \<and>
   currentTranslations (loadLanguage
        (static_server [(''./i18n/es.json'', hola_bundle), (''./i18n/en.json'', hi_bundle)])
        ''es'' (session_with ''en'' Summary hi_bundle (example_page ''a''))) = hola_bundle \<and>
   currentTranslations (state_after (handle
        (static_server [(''./i18n/es.json'', hola_bundle), (''./i18n/en.json'', hi_bundle)])
        (LanguageClick ''es'') (session_with ''en'' Summary hi_bundle (example_page ''a''))))
     = hola_bundle"
proof -
  let ?rt = "static_server [(''./i18n/es.json'', hola_bundle), (''./i18n/en.json'', hi_bundle)]"
  let ?s = "session_with ''en'' Summary hi_bundle (example_page ''a'')"
  have switch: "''es'' \<noteq> currentLang ?s"
    by (simp add: session_with_def)
  have loaded: "currentTranslations (loadLanguage ?rt ''es'' ?s) = hola_bundle"
    by code_simp
  have click: "currentTranslations (state_after (handle ?rt (LanguageClick ''es'') ?s))
                 = hola_bundle"
    by code_simp
  from single_bundle_replaced_wholesale [of ?rt "''es''" ?s "LanguageClick ''es''"] switch
  have "take (Suc (length (fetchLog ?s))) (fetchLog (loadLanguage ?rt ''es'' ?s)) =
          fetchLog ?s @ [bundle_url ''es'']"
    by blast
  with switch loaded click show ?thesis
    by blast
qed

section \<open>Properties of the Markup Normalizer\<close>

text \<open>A string without two asterisks in a row has no delimiter.\<close>

lemma no_delim_Cons: "\<not> sublist delimiter (c # cs) \<Longrightarrow> \<not> sublist delimiter cs"
  by (simp add: sublist_Cons_right)

lemma no_delim_head:
  "\<not> sublist delimiter (c # cs) \<Longrightarrow> \<not> (c = asterisk \<and> take 1 cs = [asterisk])"
  by (cases cs) (auto simp add: sublist_Cons_right delimiter_def)

text \<open>One step of the search, at a position with and without a delimiter.\<close>

lemma replace_bold_skip:
  "\<not> (c = asterisk \<and> take 1 cs = [asterisk]) \<Longrightarrow> replace_bold (c # cs) = c # replace_bold cs"
  by auto

lemma replace_bold_match:
  "find_close cs = Some (x, rest) \<Longrightarrow>
   replace_bold (asterisk # asterisk # cs) =
     units ''<strong>'' @ x @ units ''</strong>'' @ replace_bold rest"
  by simp

lemma replace_bold_no_match:
  "find_close cs = None \<Longrightarrow>
   replace_bold (asterisk # asterisk # cs) = asterisk # replace_bold (asterisk # cs)"
  by simp

declare replace_bold.simps(2) [simp del]

lemma replace_bold_plain: "\<not> sublist delimiter str \<Longrightarrow> replace_bold str = str"
proof (induction str)
  case Nil
  then show ?case by simp
next
  case (Cons c cs)
  from Cons.prems have "\<not> (c = asterisk \<and> take 1 cs = [asterisk])"
    by (rule no_delim_head)
  moreover from Cons have "replace_bold cs = cs"
    by (simp add: no_delim_Cons)
  ultimately show ?case by (simp add: replace_bold_skip)
qed

text \<open>
  \<open>find_close\<close> finds the first closing delimiter on the line, and only that.
\<close>

lemma find_close_span:
  "\<not> sublist delimiter (x @ [asterisk]) \<Longrightarrow> \<forall>c\<in>set x. \<not> line_terminator c \<Longrightarrow>
   find_close (x @ asterisk # asterisk # post) = Some (x, post)"
proof (induction x)
  case Nil
  then show ?case by simp
next
  case (Cons c x)
  from Cons.prems(1) have "\<not> (c = asterisk \<and> take 1 (x @ [asterisk]) = [asterisk])"
    using no_delim_head [of c "x @ [asterisk]"] by simp
  then have "\<not> (c = asterisk \<and> take 1 (x @ asterisk # asterisk # post) = [asterisk])"
    by (cases x) auto
  moreover from Cons have "find_close (x @ asterisk # asterisk # post) = Some (x, post)"
    using no_delim_Cons [of c "x @ [asterisk]"] by simp
  ultimately show ?case using Cons.prems(2) by simp
qed

lemma find_close_sound:
  "find_close ys = Some (x, rest) \<Longrightarrow>
   ys = x @ delimiter @ rest \<and> (\<forall>c\<in>set x. \<not> line_terminator c)"
proof (induction ys arbitrary: x)
  case Nil
  then show ?case by simp
next
  case (Cons c cs)
  show ?case
  proof (cases "c = asterisk \<and> take 1 cs = [asterisk]")
    case True
    with Cons.prems have "x = []" "rest = drop 1 cs"
      by simp_all
    moreover from True have "c # cs = delimiter @ drop 1 cs"
      by (cases cs) (simp_all add: delimiter_def)
    ultimately show ?thesis by simp
  next
    case False
    with Cons.prems obtain x' where tail: "find_close cs = Some (x', rest)"
      and x: "x = c # x'" and c: "\<not> line_terminator c"
      by (auto split: if_splits option.splits)
    from Cons.IH [OF tail] x c show ?thesis by simp
  qed
qed

lemma find_close_unclosed:
  "\<not> (\<exists>x post. ys = x @ delimiter @ post \<and> (\<forall>c\<in>set x. \<not> line_terminator c)) \<Longrightarrow>
   find_close ys = None"
proof (cases "find_close ys")
  case None
  then show ?thesis .
next
  case (Some found)
  assume open_only:
    "\<not> (\<exists>x post. ys = x @ delimiter @ post \<and> (\<forall>c\<in>set x. \<not> line_terminator c))"
  obtain x rest where "found = (x, rest)"
    by (cases found)
  with Some have "ys = x @ delimiter @ rest \<and> (\<forall>c\<in>set x. \<not> line_terminator c)"
    by (intro find_close_sound) simp
  with open_only show ?thesis by blast
qed

text \<open>What is before the first delimiter is copied.\<close>

lemma replace_bold_first_delimiter:
  assumes "\<not> sublist delimiter (pre @ [asterisk])"
  shows "replace_bold (pre @ asterisk # asterisk # tail) =
           pre @ replace_bold (asterisk # asterisk # tail)"
  using assms
proof (induction pre)
  case Nil
  show ?case by simp
next
  case (Cons c pre)
  from Cons.prems have "\<not> (c = asterisk \<and> take 1 (pre @ [asterisk]) = [asterisk])"
    using no_delim_head [of c "pre @ [asterisk]"] by simp
  then have "\<not> (c = asterisk \<and> take 1 (pre @ asterisk # asterisk # tail) = [asterisk])"
    by (cases pre) auto
  then have "replace_bold (c # (pre @ asterisk # asterisk # tail)) =
               c # replace_bold (pre @ asterisk # asterisk # tail)"
    by (rule replace_bold_skip)
  moreover from Cons
  have "replace_bold (pre @ asterisk # asterisk # tail) =
          pre @ replace_bold (asterisk # asterisk # tail)"
    using no_delim_Cons [of c "pre @ [asterisk]"] by simp
  ultimately show ?case by simp
qed

lemma replace_bold_span:
  assumes "\<not> sublist delimiter (pre @ [asterisk])"
    and "\<not> sublist delimiter (x @ [asterisk])"
    and "\<forall>c\<in>set x. \<not> line_terminator c"
  shows "replace_bold (pre @ delimiter @ x @ delimiter @ post) =
           pre @ units ''<strong>'' @ x @ units ''</strong>'' @ replace_bold post"
proof -
  have "find_close (x @ asterisk # asterisk # post) = Some (x, post)"
    using assms(2,3) by (rule find_close_span)
  then have "replace_bold (asterisk # asterisk # x @ asterisk # asterisk # post) =
               units ''<strong>'' @ x @ units ''</strong>'' @ replace_bold post"
    by (rule replace_bold_match)
  with replace_bold_first_delimiter [OF assms(1), of "x @ asterisk # asterisk # post"]
  show ?thesis
    by (simp add: delimiter_def)
qed

lemma replace_bold_unclosed:
  assumes "\<not> sublist delimiter (pre @ [asterisk])"
    and "\<not> (\<exists>x post. rest = x @ delimiter @ post \<and> (\<forall>c\<in>set x. \<not> line_terminator c))"
  shows "replace_bold (pre @ delimiter @ rest) = pre @ asterisk # replace_bold (asterisk # rest)"
proof -
  have "find_close rest = None"
    using assms(2) by (rule find_close_unclosed)
  then have "replace_bold (asterisk # asterisk # rest) = asterisk # replace_bold (asterisk # rest)"
    by (rule replace_bold_no_match)
  with replace_bold_first_delimiter [OF assms(1), of rest]
  show ?thesis
    by (simp add: delimiter_def)
qed

lemma replace_bold_no_span:
  "\<forall>pre x post. str = pre @ delimiter @ x @ delimiter @ post
      \<longrightarrow> (\<exists>c\<in>set x. line_terminator c) \<Longrightarrow>
   replace_bold str = str"
proof (induction str)
  case Nil
  show ?case by simp
next
  case (Cons c cs)
  have tail: "replace_bold cs = cs"
  proof (rule Cons.IH, intro allI impI)
    fix pre x post
    assume "cs = pre @ delimiter @ x @ delimiter @ post"
    then have "c # cs = (c # pre) @ delimiter @ x @ delimiter @ post"
      by simp
    with Cons.prems show "\<exists>c\<in>set x. line_terminator c"
      by blast
  qed
  show ?case
  proof (cases "c = asterisk \<and> take 1 cs = [asterisk]")
    case False
    then show ?thesis
      using tail by (simp add: replace_bold_skip)
  next
    case True
    then obtain rest where cs: "cs = asterisk # rest"
      by (cases cs) auto
    have "find_close rest = None"
    proof (rule find_close_unclosed, rule notI)
      assume "\<exists>x post. rest = x @ delimiter @ post \<and> (\<forall>c\<in>set x. \<not> line_terminator c)"
      then obtain x post where "rest = x @ delimiter @ post"
        and free: "\<forall>c\<in>set x. \<not> line_terminator c"
        by blast
      with True cs have "c # cs = [] @ delimiter @ x @ delimiter @ post"
        by (simp add: delimiter_def)
      with Cons.prems have "\<exists>c\<in>set x. line_terminator c"
        by blast
      with free show False by blast
    qed
    with True cs tail show ?thesis
      by (simp add: replace_bold_no_match)
  qed
qed


lemma first_delimiter:
  "sublist delimiter str \<Longrightarrow>
   \<exists>pre rest. str = pre @ delimiter @ rest \<and> \<not> sublist delimiter (pre @ [asterisk])"
proof (induction str)
  case Nil
  then show ?case by (simp add: delimiter_def)
next
  case (Cons c cs)
  show ?case
  proof (cases "c = asterisk \<and> take 1 cs = [asterisk]")
    case True
    then have "c # cs = [] @ delimiter @ drop 1 cs"
      by (cases cs) (simp_all add: delimiter_def)
    moreover have "\<not> sublist delimiter ([] @ [asterisk])"
      by (simp add: delimiter_def sublist_Cons_right)
    ultimately show ?thesis by blast
  next
    case False
    with Cons.prems have "sublist delimiter cs"
      by (cases cs) (auto simp add: sublist_Cons_right delimiter_def)
    with Cons.IH obtain pre rest where cs: "cs = pre @ delimiter @ rest"
      and first: "\<not> sublist delimiter (pre @ [asterisk])"
      by blast
    from False cs have "\<not> prefix delimiter (c # pre @ [asterisk])"
      by (cases pre) (auto simp add: delimiter_def)
    with first have "\<not> sublist delimiter ((c # pre) @ [asterisk])"
      by (simp add: sublist_Cons_right)
    moreover from cs have "c # cs = (c # pre) @ delimiter @ rest"
      by simp
    ultimately show ?thesis by blast
  qed
qed

lemma find_close_first:
  "find_close ys = Some (x, rest) \<Longrightarrow> \<not> sublist delimiter (x @ [asterisk])"
proof (induction ys arbitrary: x)
  case Nil
  then show ?case by simp
next
  case (Cons c cs)
  show ?case
  proof (cases "c = asterisk \<and> take 1 cs = [asterisk]")
    case True
    with Cons.prems have "x = []"
      by simp
    then show ?thesis
      by (simp add: delimiter_def sublist_Cons_right)
  next
    case False
    with Cons.prems obtain x' where tail: "find_close cs = Some (x', rest)"
      and x: "x = c # x'"
      by (auto split: if_splits option.splits)
    from find_close_sound [OF tail] have "cs = x' @ delimiter @ rest"
      by simp
    with False have "\<not> prefix delimiter (c # x' @ [asterisk])"
      by (cases x') (auto simp add: delimiter_def)
    with Cons.IH [OF tail] x show ?thesis
      by (simp add: sublist_Cons_right)
  qed
qed

text \<open>
  The three equations of the normalizer (a string without a delimiter, a first delimiter
  that opens a span, a first delimiter that opens none) leave no choice: a function that
  satisfies them is \<open>replace_bold\<close>.
\<close>

lemma replace_bold_unique:
  fixes f :: "js_text \<Rightarrow> js_text"
  assumes plain: "\<And>str. \<not> sublist delimiter str \<Longrightarrow> f str = str"
    and span: "\<And>pre x post.
      \<not> sublist delimiter (pre @ [asterisk]) \<Longrightarrow> \<not> sublist delimiter (x @ [asterisk]) \<Longrightarrow>
      \<forall>c\<in>set x. \<not> line_terminator c \<Longrightarrow>
      f (pre @ delimiter @ x @ delimiter @ post) =
        pre @ units ''<strong>'' @ x @ units ''</strong>'' @ f post"
    and unclosed: "\<And>pre rest.
      \<not> sublist delimiter (pre @ [asterisk]) \<Longrightarrow>
      \<not> (\<exists>x post. rest = x @ delimiter @ post \<and> (\<forall>c\<in>set x. \<not> line_terminator c)) \<Longrightarrow>
      f (pre @ delimiter @ rest) = pre @ asterisk # f (asterisk # rest)"
  shows "f str = replace_bold str"
proof (induction str rule: length_induct)
  case (1 str)
  show ?case
  proof (cases "sublist delimiter str")
    case False
    then show ?thesis
      by (simp add: plain replace_bold_plain)
  next
    case True
    then obtain pre rest where str: "str = pre @ delimiter @ rest"
      and first: "\<not> sublist delimiter (pre @ [asterisk])"
      using first_delimiter by blast
    show ?thesis
    proof (cases "find_close rest")
      case None
      have open_only:
        "\<not> (\<exists>x post. rest = x @ delimiter @ post \<and> (\<forall>c\<in>set x. \<not> line_terminator c))"
      proof
        assume "\<exists>x post. rest = x @ delimiter @ post \<and> (\<forall>c\<in>set x. \<not> line_terminator c)"
        then obtain x post where "rest = x @ delimiter @ post"
          and "\<forall>c\<in>set x. \<not> line_terminator c"
          by blast
        then have "find_close rest \<noteq> None"
          by (induction x arbitrary: rest) (auto simp add: delimiter_def)
        with None show False by simp
      qed
      have "length (asterisk # rest) < length str"
        by (simp add: str delimiter_def)
      with 1 have "f (asterisk # rest) = replace_bold (asterisk # rest)"
        by blast
      with unclosed [OF first open_only] replace_bold_unclosed [OF first open_only] str
      show ?thesis by simp
    next
      case (Some found)
      obtain x post where found: "found = (x, post)"
        by (cases found)
      with Some have close: "find_close rest = Some (x, post)"
        by simp
      from find_close_sound [OF close] have rest: "rest = x @ delimiter @ post"
        and free: "\<forall>c\<in>set x. \<not> line_terminator c"
        by simp_all
      from find_close_first [OF close] have least: "\<not> sublist delimiter (x @ [asterisk])" .
      have "length post < length str"
        by (simp add: str rest delimiter_def)
      with 1 have "f post = replace_bold post"
        by blast
      with span [OF first least free, of post] replace_bold_span [OF first least free, of post]
        str rest
      show ?thesis by simp
    qed
  qed
qed

lemma processMarkdown_string: "processMarkdown (JStr str) = Inr (replace_bold str)"
  by (cases str) (simp_all add: processMarkdown_def)

lemma no_delimiter_no_close:
  "\<not> sublist delimiter rest \<Longrightarrow>
   \<not> (\<exists>x post. rest = x @ delimiter @ post \<and> (\<forall>c\<in>set x. \<not> line_terminator c))"
  by (auto simp add: sublist_def)

lemma no_delimiter_no_span:
  "\<not> sublist delimiter str \<Longrightarrow>
   \<forall>pre x post. str = pre @ delimiter @ x @ delimiter @ post
     \<longrightarrow> (\<exists>c\<in>set x. line_terminator c)"
  by (auto simp add: sublist_def)

text \<open>
  C9, as the code has it, in three equations that together fix the result on every
  string (see \<open>replace_bold_unique\<close>).
  \<^item> A string in which every pair of delimiters has a line terminator between them, and
    so also a string with one delimiter or none, is returned as it is.
  \<^item> In \<open>pre @ delimiter @ x @ delimiter @ post\<close>, where the first delimiter of the
    string is the one after \<open>pre\<close>, the next one is the one after \<open>x\<close>, and \<open>x\<close> holds
    no line terminator, the span becomes \<open><strong>x</strong>\<close>, \<open>pre\<close> is kept, and
    \<open>post\<close> is processed in the same way, once: what has been produced is not read
    again.
  \<^item> In \<open>lead @ delimiter @ rest\<close>, where the first delimiter of the string is the one
    after \<open>lead\<close> and no delimiter closes it before a line terminator or the end of the
    string, \<open>lead\<close> and the first asterisk are kept and the processing goes on at the
    second asterisk.
\<close>

theorem processMarkdown_bold_spans:
  "((\<forall>pre x post. str = pre @ delimiter @ x @ delimiter @ post
        \<longrightarrow> (\<exists>c\<in>set x. line_terminator c))
      \<longrightarrow> processMarkdown (JStr str) = Inr str) \<and>
   (\<not> sublist delimiter (pre @ [asterisk]) \<and> \<not> sublist delimiter (x @ [asterisk]) \<and>
    (\<forall>c\<in>set x. \<not> line_terminator c) \<longrightarrow>
      (\<exists>out. processMarkdown (JStr post) = Inr out \<and>
         processMarkdown (JStr (pre @ delimiter @ x @ delimiter @ post)) =
           Inr (pre @ units ''<strong>'' @ x @ units ''</strong>'' @ out))) \<and>
   (\<not> sublist delimiter (lead @ [asterisk]) \<and>
    \<not> (\<exists>x post. rest = x @ delimiter @ post \<and> (\<forall>c\<in>set x. \<not> line_terminator c)) \<longrightarrow>
      (\<exists>out. processMarkdown (JStr (asterisk # rest)) = Inr out \<and>
         processMarkdown (JStr (lead @ delimiter @ rest)) = Inr (lead @ asterisk # out)))"
proof (intro conjI impI)
  assume "\<forall>pre x post. str = pre @ delimiter @ x @ delimiter @ post
            \<longrightarrow> (\<exists>c\<in>set x. line_terminator c)"
  then have "replace_bold str = str"
    by (rule replace_bold_no_span)
  then show "processMarkdown (JStr str) = Inr str"
    by (simp add: processMarkdown_string)
next
  assume "\<not> sublist delimiter (pre @ [asterisk]) \<and> \<not> sublist delimiter (x @ [asterisk]) \<and>
          (\<forall>c\<in>set x. \<not> line_terminator c)"
  then have "replace_bold (pre @ delimiter @ x @ delimiter @ post) =
               pre @ units ''<strong>'' @ x @ units ''</strong>'' @ replace_bold post"
    by (intro replace_bold_span) blast+
  then show "\<exists>out. processMarkdown (JStr post) = Inr out \<and>
         processMarkdown (JStr (pre @ delimiter @ x @ delimiter @ post)) =
           Inr (pre @ units ''<strong>'' @ x @ units ''</strong>'' @ out)"
    by (simp only: processMarkdown_string) blast
next
  assume "\<not> sublist delimiter (lead @ [asterisk]) \<and>
    \<not> (\<exists>x post. rest = x @ delimiter @ post \<and> (\<forall>c\<in>set x. \<not> line_terminator c))"
  then have "replace_bold (lead @ delimiter @ rest) =
               lead @ asterisk # replace_bold (asterisk # rest)"
    by (intro replace_bold_unclosed) blast+
  then show "\<exists>out. processMarkdown (JStr (asterisk # rest)) = Inr out \<and>
         processMarkdown (JStr (lead @ delimiter @ rest)) = Inr (lead @ asterisk # out)"
    by (simp only: processMarkdown_string) blast
qed

theorem processMarkdown_bold_spans_witness:
  "processMarkdown (JStr (units ''2 * 3'')) = Inr (units ''2 * 3'') \<and>
   processMarkdown
     (JStr (units ''I am '' @ delimiter @ units ''Ivan'' @ delimiter @
            units '', **a **b** c**''))
     = Inr (units ''I am '' @ units ''<strong>'' @ units ''Ivan'' @ units ''</strong>'' @
            units '', <strong>a </strong>b<strong> c</strong>'') \<and>
   processMarkdown (JStr (units ''price: '' @ delimiter @ units ''9.99''))
     = Inr (units ''price: '' @ asterisk # units ''*9.99'')"
proof -
  note spans = processMarkdown_bold_spans
         [of "units ''2 * 3''" "units ''I am ''" "units ''Ivan''"
             "units '', **a **b** c**''" "units ''price: ''" "units ''9.99''"]
  have "\<not> sublist delimiter (units ''2 * 3'')"
    by code_simp
  then have plain: "\<forall>pre x post. units ''2 * 3'' = pre @ delimiter @ x @ delimiter @ post
                      \<longrightarrow> (\<exists>c\<in>set x. line_terminator c)"
    by (rule no_delimiter_no_span)
  have first: "\<not> sublist delimiter (units ''I am '' @ [asterisk])"
    by code_simp
  have inside: "\<not> sublist delimiter (units ''Ivan'' @ [asterisk])"
    by code_simp
  have one_line: "\<forall>c\<in>set (units ''Ivan''). \<not> line_terminator c"
    by code_simp
  have later: "processMarkdown (JStr (units '', **a **b** c**''))
                = Inr (units '', <strong>a </strong>b<strong> c</strong>'')"
    by code_simp
  have lead: "\<not> sublist delimiter (units ''price: '' @ [asterisk])"
    by code_simp
  have "\<not> sublist delimiter (units ''9.99'')"
    by code_simp
  then have unclosed:
    "\<not> (\<exists>x post. units ''9.99'' = x @ delimiter @ post \<and> (\<forall>c\<in>set x. \<not> line_terminator c))"
    by (rule no_delimiter_no_close)
  have tail: "processMarkdown (JStr (asterisk # units ''9.99'')) = Inr (units ''*9.99'')"
    by code_simp
  from spans plain
  have one: "processMarkdown (JStr (units ''2 * 3'')) = Inr (units ''2 * 3'')"
    by blast
  from spans first inside one_line
  obtain out where "processMarkdown (JStr (units '', **a **b** c**'')) = Inr out"
    and "processMarkdown
           (JStr (units ''I am '' @ delimiter @ units ''Ivan'' @ delimiter @
                  units '', **a **b** c**''))
           = Inr (units ''I am '' @ units ''<strong>'' @ units ''Ivan'' @ units ''</strong>'' @
                  out)"
    by blast
  with later
  have two: "processMarkdown
           (JStr (units ''I am '' @ delimiter @ units ''Ivan'' @ delimiter @
                  units '', **a **b** c**''))
           = Inr (units ''I am '' @ units ''<strong>'' @ units ''Ivan'' @ units ''</strong>'' @
                  units '', <strong>a </strong>b<strong> c</strong>'')"
    by (simp only: sum.inject)
  from spans lead unclosed
  obtain out' where "processMarkdown (JStr (asterisk # units ''9.99'')) = Inr out'"
    and "processMarkdown (JStr (units ''price: '' @ delimiter @ units ''9.99''))
           = Inr (units ''price: '' @ asterisk # out')"
    by blast
  with tail
  have "processMarkdown (JStr (units ''price: '' @ delimiter @ units ''9.99''))
          = Inr (units ''price: '' @ asterisk # units ''*9.99'')"
    by (simp only: sum.inject)
  with one two show ?thesis
    by blast
qed

text \<open>
  The claim as it is written fails on a span that holds a line terminator, here a line
  feed and then U+2028: the dot of the pattern does not match it, and the string is
  returned as it is.
\<close>

theorem processMarkdown_bold_spans_counterexample:
  "processMarkdown (JStr (delimiter @ units ''a'' @ [0x0A] @ units ''b'' @ delimiter))
     = Inr (delimiter @ units ''a'' @ [0x0A] @ units ''b'' @ delimiter) \<and>
   processMarkdown (JStr (delimiter @ units ''a'' @ [0x0A] @ units ''b'' @ delimiter))
     \<noteq> Inr (units ''<strong>'' @ (units ''a'' @ [0x0A] @ units ''b'') @ units ''</strong>'') \<and>
   processMarkdown (JStr (delimiter @ units ''a'' @ [0x2028] @ units ''b'' @ delimiter))
     = Inr (delimiter @ units ''a'' @ [0x2028] @ units ''b'' @ delimiter) \<and>
   processMarkdown (JStr (delimiter @ units ''a'' @ [0x2028] @ units ''b'' @ delimiter))
     \<noteq> Inr (units ''<strong>'' @ (units ''a'' @ [0x2028] @ units ''b'') @ units ''</strong>'')"
  by code_simp

end
